theory Spec2Isabelle
  imports Main "HOL-Library.Sublist"
begin

section \<open>Graph model\<close>

text \<open>
  The translators of \<^verbatim>\<open>mdp/hinet/hinet_translator.py\<close> walk a flow of nodes and only
  read, of each node: its class (through \<^verbatim>\<open>isinstance\<close>), \<^verbatim>\<open>str(node)\<close>,
  \<^verbatim>\<open>input_dim\<close>, \<^verbatim>\<open>output_dim\<close> and its children. A Python object is a record of
  these attributes; \<open>classes\<close> lists every class the object is an instance of (its
  own class and all base classes). The dimensions are integers, as the \<^verbatim>\<open>%d\<close>
  format of the source requires.
\<close>

type_synonym pyclass = string

record pyobj =
  classes :: "pyclass list"
  str :: string
  input_dim :: int
  output_dim :: int

definition isinstance :: "pyobj \<Rightarrow> pyclass \<Rightarrow> bool" where
  "isinstance obj cls = (cls \<in> set (classes obj))"

text \<open>
  The dispatch of \<^verbatim>\<open>_translate_node\<close> tells four cases apart, in this order: an
  instance of \<^verbatim>\<open>FlowNode\<close> (with the nodes of \<^verbatim>\<open>flownode._flow.flow\<close>), of
  \<^verbatim>\<open>CloneLayer\<close> (with \<^verbatim>\<open>clonelayer.node\<close> and \<^verbatim>\<open>len(clonelayer.nodes)\<close>), of
  \<^verbatim>\<open>Layer\<close> (with \<^verbatim>\<open>layer.nodes\<close>), and, in the final \<^verbatim>\<open>else\<close>, any other
  object whatsoever. A flow is the list of its nodes: \<^verbatim>\<open>for node in flow\<close> and
  \<^verbatim>\<open>flow.flow\<close> both enumerate it.
\<close>

datatype node =
    FlowNode pyobj "node list"
  | CloneLayer pyobj node nat
  | Layer pyobj "node list"
  | Plain pyobj

type_synonym flow = "node list"

text \<open>
  The closed set of variants of the specification: the three container variants, and
  the standard nodes, which are the instances of the base class \<^verbatim>\<open>Node\<close> that are
  none of the three. An object that reaches the \<^verbatim>\<open>else\<close> branch without being a
  \<^verbatim>\<open>Node\<close> is outside the closed set.
\<close>

fun is_plain :: "node \<Rightarrow> bool" where
  "is_plain (Plain obj) = True"
| "is_plain other = False"

fun in_closed_set :: "node \<Rightarrow> bool" where
  "in_closed_set (FlowNode obj flow) = True"
| "in_closed_set (CloneLayer obj node n) = True"
| "in_closed_set (Layer obj nodes) = True"
| "in_closed_set (Plain obj) = isinstance obj ''Node''"


section \<open>Generic translator (class HiNetTranslator)\<close>

text \<open>
  The translation is a nested list whose leaves are the nodes themselves
  (\<^verbatim>\<open>_translate_standard_node\<close> returns its argument).

  Every function returns, beside the translation, the list of the arguments of all
  invocations of \<^verbatim>\<open>_translate_node\<close> made during the call, in the order they are
  made. The log is what a call counter on a node observes; the source keeps no such
  state, and the translation itself is the first component.
\<close>

datatype translation = Passthrough node | Sequence "translation list"

function translate_node :: "node \<Rightarrow> translation \<times> node list"
  and translate_flownode :: "flow \<Rightarrow> translation \<times> node list"
  and translate_layer :: "node list \<Rightarrow> translation \<times> node list"
  and translate_clonelayer :: "node \<Rightarrow> nat \<Rightarrow> translation \<times> node list"
  and translate_standard_node :: "pyobj \<Rightarrow> translation \<times> node list"
  and translate_each :: "node list \<Rightarrow> translation list \<times> node list"
where
  "translate_node (FlowNode obj flow) =
     (case translate_flownode flow of (t, calls) \<Rightarrow> (t, FlowNode obj flow # calls))"
| "translate_node (CloneLayer obj node n) =
     (case translate_clonelayer node n of (t, calls) \<Rightarrow> (t, CloneLayer obj node n # calls))"
| "translate_node (Layer obj nodes) =
     (case translate_layer nodes of (t, calls) \<Rightarrow> (t, Layer obj nodes # calls))"
| "translate_node (Plain obj) =
     (case translate_standard_node obj of (t, calls) \<Rightarrow> (t, Plain obj # calls))"
| "translate_flownode flow =
     (case translate_each flow of (ts, calls) \<Rightarrow> (Sequence ts, calls))"
| "translate_layer nodes =
     (case translate_each nodes of (ts, calls) \<Rightarrow> (Sequence ts, calls))"
| "translate_clonelayer node n =
     (case translate_node node of (translated_node, calls) \<Rightarrow>
        (Sequence (replicate n translated_node), calls))"
| "translate_standard_node obj = (Passthrough (Plain obj), [])"
| "translate_each [] = ([], [])"
| "translate_each (node # rest) =
     (case translate_node node of (t, c1) \<Rightarrow>
        case translate_each rest of (ts, c2) \<Rightarrow> (t # ts, c1 @ c2))"
  by pat_completeness auto

termination
  by (relation "measure (\<lambda>call. case call of
        Inl (Inl node) \<Rightarrow> 3 * size node + 2
      | Inl (Inr (Inl flow)) \<Rightarrow> 3 * size_list size flow + 2
      | Inl (Inr (Inr nodes)) \<Rightarrow> 3 * size_list size nodes + 2
      | Inr (Inl (node, n)) \<Rightarrow> 3 * size node + 3
      | Inr (Inr (Inl obj)) \<Rightarrow> 0
      | Inr (Inr (Inr nodes)) \<Rightarrow> 3 * size_list size nodes + 1)") simp_all

text \<open>
  \<open>translate_each\<close> is the loop
  \<^verbatim>\<open>for node in ...: translation.append(self._translate_node(node))\<close>
  that \<^verbatim>\<open>_translate_flow\<close>, \<^verbatim>\<open>_translate_flownode\<close> and \<^verbatim>\<open>_translate_layer\<close> share.
\<close>

definition translate_flow :: "flow \<Rightarrow> translation \<times> node list" where
  "translate_flow flow =
     (case translate_each flow of (flow_translation, calls) \<Rightarrow>
        (Sequence flow_translation, calls))"

text \<open>
  What the caller of \<^verbatim>\<open>_translate_node\<close> observes: a returned translation or a raised
  error. No path of the source raises; every path ends in a \<^verbatim>\<open>return\<close>.
\<close>

datatype error = UnsupportedVariant | ReentrantUse

definition translate_node_outcome :: "node \<Rightarrow> error + translation" where
  "translate_node_outcome node = Inr (fst (translate_node node))"


section \<open>HTML translator (class HiNetHTMLTranslator)\<close>

text \<open>
  The format \<^verbatim>\<open>'%d' % n\<close> of an integer: its decimal digits, after a minus sign when it
  is negative.
\<close>

definition digit_char :: "nat \<Rightarrow> char" where
  "digit_char n = ''0123456789'' ! (n mod 10)"

function decimal :: "nat \<Rightarrow> string" where
  "decimal n = (if n < 10 then [digit_char n] else decimal (n div 10) @ [digit_char n])"
  by pat_completeness auto

termination
  by (relation "measure (\<lambda>n. n)") simp_all

definition format_d :: "int \<Rightarrow> string" where
  "format_d i = (if i < 0 then CHR ''-'' # decimal (nat (- i)) else decimal (nat i))"

text \<open>\<^verbatim>\<open>sep.join(lines)\<close>\<close>

fun join :: "string \<Rightarrow> string list \<Rightarrow> string" where
  "join sep [] = []"
| "join sep [line] = line"
| "join sep (line # next_line # lines) = line @ sep @ join sep (next_line # lines)"

text \<open>
  The registry \<^verbatim>\<open>_node_param_translators\<close> is a list of pairs of a node class and a
  function from the node to its HTML lines.
\<close>

type_synonym registry = "(pyclass \<times> (pyobj \<Rightarrow> string list)) list"

text \<open>
  Every method writes through \<^verbatim>\<open>f = self._html_file\<close>, which does not change during a
  translation. A method is modelled by the list of the strings it passes to
  \<^verbatim>\<open>f.write\<close>, in the order of the calls.

  The first argument of \<open>open_node_env\<close> and \<open>close_node_env\<close> is the attribute
  \<^verbatim>\<open>node.input_dim\<close> (\<^verbatim>\<open>node.output_dim\<close>) of the node they are given. The source reads
  it only when the type id is neither \<^verbatim>\<open>"flow"\<close> nor \<^verbatim>\<open>"flownode"\<close>; a Flow has no
  such attribute, and \<open>no_dim\<close> stands in its place.
\<close>

definition no_dim :: int where
  "no_dim = 0"

definition open_node_env :: "int \<Rightarrow> string \<Rightarrow> string list" where
  \<open>open_node_env dim type_id =
     [''<table class="'' @ type_id @ ''">''] @
     (if \<not> (type_id = ''flow'' \<or> type_id = ''flownode'')
      then [''<tr><td class="dim">in-dim: '' @ format_d dim @ ''</td></tr>'']
      else []) @
     [''<tr><td>'',
      ''<table class="nodestruct">'']\<close>

definition close_node_env :: "int \<Rightarrow> string \<Rightarrow> string list" where
  \<open>close_node_env dim type_id =
     [''</table>'',
      ''</td></tr>''] @
     (if \<not> (type_id = ''flow'' \<or> type_id = ''flownode'')
      then [''<tr><td class="dim">out-dim: '' @ format_d dim,
            ''</td></tr>'']
      else []) @
     [''</table>'']\<close>

text \<open>
  The loop of \<^verbatim>\<open>_translate_standard_node\<close> over \<^verbatim>\<open>self._node_param_translators[::-1]\<close>:
  the first entry whose class the node is an instance of writes its lines, joined, in
  one write, and the loop breaks. The function is given the reversed list.
\<close>

fun scan_param_translators :: "registry \<Rightarrow> pyobj \<Rightarrow> string list" where
  "scan_param_translators [] node = []"
| "scan_param_translators (node_param_trans # rest) node =
     (if isinstance node (fst node_param_trans)
      then [join '' <br>\<newline>'' (snd node_param_trans node)]
      else scan_param_translators rest node)"

function html_translate_node :: "registry \<Rightarrow> node \<Rightarrow> string list"
  and html_translate_flownode :: "registry \<Rightarrow> pyobj \<Rightarrow> flow \<Rightarrow> string list"
  and html_translate_layer :: "registry \<Rightarrow> pyobj \<Rightarrow> node list \<Rightarrow> string list"
  and html_translate_clonelayer :: "registry \<Rightarrow> pyobj \<Rightarrow> node \<Rightarrow> nat \<Rightarrow> string list"
  and html_translate_standard_node :: "registry \<Rightarrow> pyobj \<Rightarrow> string list"
  and html_rows :: "registry \<Rightarrow> node list \<Rightarrow> string list"
  and html_columns :: "registry \<Rightarrow> node list \<Rightarrow> string list"
where
  \<open>html_translate_node reg (FlowNode obj flow) = html_translate_flownode reg obj flow\<close>
| \<open>html_translate_node reg (CloneLayer obj node n) = html_translate_clonelayer reg obj node n\<close>
| \<open>html_translate_node reg (Layer obj nodes) = html_translate_layer reg obj nodes\<close>
| \<open>html_translate_node reg (Plain obj) = html_translate_standard_node reg obj\<close>
| \<open>html_translate_flownode reg flownode flow =
     open_node_env (input_dim flownode) ''flownode'' @
     html_rows reg flow @
     close_node_env (output_dim flownode) ''flownode''\<close>
| \<open>html_translate_layer reg layer nodes =
     open_node_env (input_dim layer) ''layer'' @
     [''<tr>''] @
     html_columns reg nodes @
     [''</tr>''] @
     close_node_env (output_dim layer) ''node''\<close>
| \<open>html_translate_clonelayer reg clonelayer node n =
     open_node_env (input_dim clonelayer) ''layer'' @
     [''<tr><td class="nodename">'',
      str clonelayer @ ''<br><br>'',
      format_d (int n) @ '' repetitions'',
      ''</td>'',
      ''<td>''] @
     html_translate_node reg node @
     [''</td></tr>''] @
     close_node_env (output_dim clonelayer) ''node''\<close>
| \<open>html_translate_standard_node reg node =
     open_node_env (input_dim node) ''node'' @
     [''<tr><td class="nodename">'',
      str node,
      ''</td></tr>'',
      ''<tr><td class="nodeparams">''] @
     scan_param_translators (rev reg) node @
     [''</td></tr>''] @
     close_node_env (output_dim node) ''node''\<close>
| \<open>html_rows reg [] = []\<close>
| \<open>html_rows reg (node # rest) =
     [''<tr><td>''] @ html_translate_node reg node @ [''</td></tr>''] @ html_rows reg rest\<close>
| \<open>html_columns reg [] = []\<close>
| \<open>html_columns reg (node # rest) =
     [''<td>''] @ html_translate_node reg node @ [''</td>''] @ html_columns reg rest\<close>
  by pat_completeness auto

termination
  by (relation "measure (\<lambda>call. case call of
        Inl (Inl (reg, node)) \<Rightarrow> 3 * size node + 2
      | Inl (Inr (Inl (reg, obj, flow))) \<Rightarrow> 3 * size_list size flow + 2
      | Inl (Inr (Inr (reg, obj, nodes))) \<Rightarrow> 3 * size_list size nodes + 2
      | Inr (Inl (Inl (reg, obj, node, n))) \<Rightarrow> 3 * size node + 3
      | Inr (Inl (Inr (reg, obj))) \<Rightarrow> 0
      | Inr (Inr (Inl (reg, nodes))) \<Rightarrow> 3 * size_list size nodes + 1
      | Inr (Inr (Inr (reg, nodes))) \<Rightarrow> 3 * size_list size nodes + 1)") simp_all

text \<open>
  \<open>html_rows\<close> is the loop of \<^verbatim>\<open>_translate_flow\<close> and \<^verbatim>\<open>_translate_flownode\<close>,
  \<open>html_columns\<close> the loop of \<^verbatim>\<open>_translate_layer\<close>.
\<close>

definition html_translate_flow :: "registry \<Rightarrow> flow \<Rightarrow> string list" where
  \<open>html_translate_flow reg flow =
     open_node_env no_dim ''flow'' @
     html_rows reg flow @
     [''</td></tr>''] @
     close_node_env no_dim ''flow''\<close>

text \<open>
  The translator object and the file objects. A file object is identified by a number;
  its state is the list of the strings its \<^verbatim>\<open>write\<close> method has received.
  \<^verbatim>\<open>NewlineWriteFile.write\<close> passes on its argument followed by a newline.
\<close>

type_synonym file_id = nat

type_synonym files = "file_id \<Rightarrow> string list"

record translator =
  node_param_translators :: registry
  html_file :: "file_id option"

definition newline_write :: "file_id \<Rightarrow> string \<Rightarrow> files \<Rightarrow> files" where
  "newline_write file_obj str_obj fs = fs(file_obj := fs file_obj @ [str_obj @ ''\<newline>''])"

definition write_flow_to_file ::
  "translator \<Rightarrow> flow \<Rightarrow> file_id \<Rightarrow> files \<Rightarrow> translator \<times> files" where
  "write_flow_to_file self flow html_file' fs =
     (let self1 = self\<lparr>html_file := Some html_file'\<rparr>;
          fs1 = fold (newline_write html_file')
                  (html_translate_flow (node_param_translators self1) flow) fs;
          self2 = self1\<lparr>html_file := None\<rparr>
      in (self2, fs1))"

text \<open>
  What the caller of \<^verbatim>\<open>write_flow_to_file\<close> observes. The method has no \<^verbatim>\<open>raise\<close> and
  does not inspect \<^verbatim>\<open>self._html_file\<close> before it assigns it.
\<close>

definition write_flow_to_file_outcome ::
  "translator \<Rightarrow> flow \<Rightarrow> file_id \<Rightarrow> files \<Rightarrow> error + translator \<times> files" where
  "write_flow_to_file_outcome self flow html_file' fs =
     Inr (write_flow_to_file self flow html_file' fs)"

text \<open>\<^verbatim>\<open>add_node_param_translators\<close> appends to the registry.\<close>

definition add_node_param_translators :: "translator \<Rightarrow> registry \<Rightarrow> translator" where
  "add_node_param_translators self appended =
     self\<lparr>node_param_translators := node_param_translators self @ appended\<rparr>"


section \<open>SenderBiNode (bimdp/nodes/miscnodes.py)\<close>

text \<open>
  A Python value as far as its truth value goes: the argument \<^verbatim>\<open>no_x\<close> of
  \<^verbatim>\<open>SenderBiNode._execute\<close> is only tested by \<^verbatim>\<open>if no_x\<close>.
\<close>

datatype pyvalue = PyNone | PyBool bool | PyInt int | PyStr string

fun truthy :: "pyvalue \<Rightarrow> bool" where
  "truthy PyNone = False"
| "truthy (PyBool b) = b"
| "truthy (PyInt i) = (i \<noteq> 0)"
| "truthy (PyStr s) = (s \<noteq> [])"

text \<open>
  \<^verbatim>\<open>SenderBiNode._execute(self, x, no_x=None)\<close>. The separator \<^verbatim>\<open>MSG_ID_SEP\<close> is
  imported from the package \<^verbatim>\<open>bimdp\<close>, whose defining module is not among the sources:
  it is the first parameter. \<open>recipient_id\<close> is \<^verbatim>\<open>self._recipient_id\<close>, \<open>None\<close> or
  a string, and \<^verbatim>\<open>if self._recipient_id\<close> holds for a string that is not empty. The
  result is the pair of the returned data (\<open>None\<close> for Python's \<^verbatim>\<open>None\<close>) and of the
  message, a dictionary.
\<close>

definition SenderBiNode_execute ::
  "string \<Rightarrow> string option \<Rightarrow> 'a \<Rightarrow> pyvalue \<Rightarrow> 'a option \<times> (string \<rightharpoonup> 'a)" where
  "SenderBiNode_execute MSG_ID_SEP recipient_id x no_x =
     (let msg = Map.empty;
          msg = (case recipient_id of
                   None \<Rightarrow> msg(''msg_x'' \<mapsto> x)
                 | Some rid \<Rightarrow>
                     if rid \<noteq> [] then msg(rid @ MSG_ID_SEP @ ''msg_x'' \<mapsto> x)
                     else msg(''msg_x'' \<mapsto> x));
          x' = (if truthy no_x then None else Some x)
      in (x', msg))"

text \<open>\<^verbatim>\<open>pat in s\<close> for strings: \<open>pat\<close> occurs in \<open>s\<close>.\<close>

fun contains :: "string \<Rightarrow> string \<Rightarrow> bool" where
  "contains pat [] = (pat = [])"
| "contains pat (c # cs) = (prefix pat (c # cs) \<or> contains pat cs)"

text \<open>
  Modelled from the spec: the function that splits a message key is part of the
  messaging runtime of \<^verbatim>\<open>bimdp\<close> and is not among the sources. The specification
  splits a key "on the first SEPARATOR occurrence": the result is the text before the
  first occurrence of the separator and the text after it, and there is no result when
  the separator does not occur (or is empty).
\<close>

fun split_first :: "string \<Rightarrow> string \<Rightarrow> (string \<times> string) option" where
  "split_first sep [] = None"
| "split_first sep (c # cs) =
     (if sep = [] then None
      else if prefix sep (c # cs) then Some ([], drop (length sep) (c # cs))
      else (case split_first sep cs of
              None \<Rightarrow> None
            | Some (before, after) \<Rightarrow> Some (c # before, after)))"

text \<open>
  A separator overlaps itself when one of its proper prefixes is also its suffix, as
  in \<^verbatim>\<open>::\<close> or \<^verbatim>\<open>aba\<close>; an arrow such as \<^verbatim>\<open>=>\<close> does not.
\<close>

definition overlap_free :: "string \<Rightarrow> bool" where
  "overlap_free sep =
     list_all (\<lambda>k. take k sep \<noteq> drop (length sep - k) sep) [1..<length sep]"


section \<open>Markers of the written markup\<close>

text \<open>
  The markup the translator writes is made of the tags of tables, rows and cells. An
  open marker is an occurrence of \<^verbatim>\<open><table\<close>, \<^verbatim>\<open><tr\<close> or \<^verbatim>\<open><td\<close> in a written
  string, a close marker an occurrence of \<^verbatim>\<open></table>\<close>, \<^verbatim>\<open></tr>\<close> or \<^verbatim>\<open></td>\<close>.
  The line break \<^verbatim>\<open><br>\<close> is neither.
\<close>

fun occurrences :: "string \<Rightarrow> string \<Rightarrow> nat" where
  "occurrences pat [] = 0"
| "occurrences pat (c # cs) = (if prefix pat (c # cs) then 1 else 0) + occurrences pat cs"

definition open_markers :: "string \<Rightarrow> nat" where
  "open_markers s = occurrences ''<table'' s + occurrences ''<tr'' s + occurrences ''<td'' s"

definition close_markers :: "string \<Rightarrow> nat" where
  "close_markers s =
     occurrences ''</table>'' s + occurrences ''</tr>'' s + occurrences ''</td>'' s"

definition opens :: "string list \<Rightarrow> nat" where
  "opens ws = sum_list (map open_markers ws)"

definition closes :: "string list \<Rightarrow> nat" where
  "closes ws = sum_list (map close_markers ws)"


text \<open>
  A text is free of markup when it has no \<^verbatim>\<open><\<close>. The texts that come from outside the
  translator are the names \<^verbatim>\<open>str(node)\<close> of the standard nodes and of the clone
  layers, and the lines that the functions of the registry return for the standard
  nodes; \<open>plain_texts\<close> holds for a node when all of them, in the node and below it,
  are free of markup.
\<close>

definition markup_free :: "string \<Rightarrow> bool" where
  "markup_free s = (CHR ''<'' \<notin> set s)"

fun plain_texts :: "registry \<Rightarrow> node \<Rightarrow> bool" where
  "plain_texts reg (FlowNode obj flow) = (\<forall>n \<in> set flow. plain_texts reg n)"
| "plain_texts reg (CloneLayer obj node n) = (markup_free (str obj) \<and> plain_texts reg node)"
| "plain_texts reg (Layer obj nodes) = (\<forall>n \<in> set nodes. plain_texts reg n)"
| "plain_texts reg (Plain obj) =
     (markup_free (str obj) \<and>
      (\<forall>entry \<in> set reg. \<forall>line \<in> set (snd entry obj). markup_free line))"

text \<open>
  The number of markers that are open after a sequence of writes, starting from
  \<open>depth\<close> open markers; there is none when, after some write, more markers have been
  closed than opened.
\<close>

fun running :: "nat \<Rightarrow> string list \<Rightarrow> nat option" where
  "running depth [] = Some depth"
| "running depth (w # ws) =
     (if close_markers w \<le> depth + open_markers w
      then running (depth + open_markers w - close_markers w) ws
      else None)"


section \<open>Sample inputs\<close>

text \<open>Sample objects and nodes, used to instantiate the theorems at concrete inputs.\<close>

definition sample_obj :: "pyclass list \<Rightarrow> string \<Rightarrow> int \<Rightarrow> int \<Rightarrow> pyobj" where
  "sample_obj cs name i k = \<lparr>classes = cs, str = name, input_dim = i, output_dim = k\<rparr>"

definition obj_A :: pyobj where
  "obj_A = sample_obj [''SFANode'', ''Node'', ''object''] ''SFANode'' 4 2"

definition node_A :: node where
  "node_A = Plain obj_A"

definition node_B :: node where
  "node_B = Plain (sample_obj [''PCANode'', ''Node'', ''object''] ''PCANode'' 2 1)"

definition foreign_object :: node where
  "foreign_object = Plain (sample_obj [''str'', ''object''] ''hello'' 0 0)"

definition flownode_obj :: pyobj where
  "flownode_obj = sample_obj [''FlowNode'', ''Node'', ''object''] ''FlowNode'' 4 1"

definition clonelayer_obj :: pyobj where
  "clonelayer_obj =
     sample_obj [''CloneLayer'', ''Layer'', ''Node'', ''object''] ''CloneLayer'' 12 6"

definition render_R1 :: "pyobj \<Rightarrow> string list" where
  "render_R1 node = [''rendered by R1'']"

definition render_R2 :: "pyobj \<Rightarrow> string list" where
  "render_R2 node = [''rendered by R2'', ''dim: '' @ format_d (input_dim node)]"

definition bound_translator :: translator where
  "bound_translator = \<lparr>node_param_translators = [], html_file = Some 1\<rparr>"

definition no_files :: files where
  "no_files = (\<lambda>file_obj. [])"


section \<open>Properties of the generic translator\<close>

lemma translate_each_eq:
  "translate_each ns =
     (map (\<lambda>n. fst (translate_node n)) ns, concat (map (\<lambda>n. snd (translate_node n)) ns))"
  by (induction ns) (simp_all split: prod.splits)

lemma translate_each_Plain:
  assumes "\<forall>n \<in> set f. is_plain n"
  shows "fst (translate_each f) = map Passthrough f"
proof -
  have "fst (translate_node n) = Passthrough n" if "n \<in> set f" for n
  proof -
    from assms that have "is_plain n" by blast
    then show ?thesis by (cases n) simp_all
  qed
  then show ?thesis
    by (simp add: translate_each_eq cong: map_cong)
qed

text \<open>
  The call log of a node starts with the node itself, and every later entry is a
  strictly smaller node: no node is translated twice within one traversal.
\<close>

lemma calls_head: "\<exists>rest. snd (translate_node x) = x # rest"
  by (cases x) (simp_all split: prod.splits)

lemma calls_smaller:
  "y \<in> set (tl (snd (translate_node x))) \<Longrightarrow> size y < size x"
proof (induction x arbitrary: y)
  case (FlowNode obj flow)
  from FlowNode.prems obtain n where n: "n \<in> set flow" "y \<in> set (snd (translate_node n))"
    by (auto simp: translate_each_eq split: prod.splits)
  from calls_head [of n] obtain rest where rest: "snd (translate_node n) = n # rest"
    by blast
  have "size y \<le> size n"
  proof (cases "y = n")
    case True
    then show ?thesis by simp
  next
    case False
    with n(2) rest have "y \<in> set (tl (snd (translate_node n)))" by simp
    from FlowNode.IH [OF n(1) this] show ?thesis by simp
  qed
  moreover from n(1) have "size n < size (FlowNode obj flow)"
    by (simp add: less_Suc_eq_le size_list_estimation')
  ultimately show ?case by simp
next
  case (CloneLayer obj p k)
  from CloneLayer.prems have y: "y \<in> set (snd (translate_node p))"
    by (auto split: prod.splits)
  from calls_head [of p] obtain rest where rest: "snd (translate_node p) = p # rest"
    by blast
  have "size y \<le> size p"
  proof (cases "y = p")
    case True
    then show ?thesis by simp
  next
    case False
    with y rest have "y \<in> set (tl (snd (translate_node p)))" by simp
    from CloneLayer.IH [OF this] show ?thesis by simp
  qed
  then show ?case by simp
next
  case (Layer obj nodes)
  from Layer.prems obtain n where n: "n \<in> set nodes" "y \<in> set (snd (translate_node n))"
    by (auto simp: translate_each_eq split: prod.splits)
  from calls_head [of n] obtain rest where rest: "snd (translate_node n) = n # rest"
    by blast
  have "size y \<le> size n"
  proof (cases "y = n")
    case True
    then show ?thesis by simp
  next
    case False
    with n(2) rest have "y \<in> set (tl (snd (translate_node n)))" by simp
    from Layer.IH [OF n(1) this] show ?thesis by simp
  qed
  moreover from n(1) have "size n < size (Layer obj nodes)"
    by (simp add: less_Suc_eq_le size_list_estimation')
  ultimately show ?case by simp
next
  case (Plain obj)
  then show ?case by simp
qed

lemma calls_count_self: "count_list (snd (translate_node x)) x = 1"
proof -
  from calls_head [of x] obtain rest where rest: "snd (translate_node x) = x # rest"
    by blast
  have "x \<notin> set rest"
  proof
    assume "x \<in> set rest"
    with rest have "x \<in> set (tl (snd (translate_node x)))" by simp
    from calls_smaller [OF this] show False by simp
  qed
  then have "count_list rest x = 0"
    by (simp add: count_list_0_iff)
  with rest show ?thesis by simp
qed

text \<open>
  Claim C4. For every FlowNode wrapping an inner flow \<open>g\<close>, the generic translation of
  the FlowNode is the generic translation of \<open>g\<close> itself: the FlowNode adds no level
  of nesting.
\<close>

theorem flownode_transparent:
  "fst (translate_node (FlowNode obj g)) = fst (translate_flow g)"
  by (simp add: translate_flow_def split: prod.splits)

theorem flownode_transparent_witness:
  "fst (translate_node (FlowNode flownode_obj [node_A, node_B])) =
     Sequence [Passthrough node_A, Passthrough node_B] \<and>
   fst (translate_flow [node_A, node_B]) = Sequence [Passthrough node_A, Passthrough node_B]"
  using flownode_transparent [of flownode_obj "[node_A, node_B]"]
  by (simp add: translate_flow_def node_A_def node_B_def)

text \<open>
  Claim C8. For every flow \<open>f\<close> all of whose children are standard nodes (they reach
  the \<^verbatim>\<open>else\<close> branch of the dispatch), the generic translation of \<open>f\<close> is a
  sequence as long as \<open>f\<close> whose \<open>i\<close>-th element is the \<open>i\<close>-th child itself:
  \<^verbatim>\<open>_translate_standard_node\<close> returns the node it is given.
\<close>

theorem flow_of_standard_nodes:
  assumes "\<forall>n \<in> set f. is_plain n"
  shows "\<exists>ts. fst (translate_flow f) = Sequence ts \<and> length ts = length f \<and>
           (\<forall>i < length f. ts ! i = Passthrough (f ! i))"
proof -
  from assms have "fst (translate_flow f) = Sequence (map Passthrough f)"
    by (simp add: translate_flow_def case_prod_beta translate_each_Plain)
  then show ?thesis by simp
qed

theorem flow_of_standard_nodes_witness:
  "\<exists>ts. fst (translate_flow [node_A, node_B]) = Sequence ts \<and> length ts = 2 \<and>
     ts ! 0 = Passthrough node_A \<and> ts ! 1 = Passthrough node_B"
proof -
  have "\<forall>n \<in> set [node_A, node_B]. is_plain n"
    by (simp add: node_A_def node_B_def)
  from flow_of_standard_nodes [OF this] show ?thesis
    by (auto simp: nth_Cons')
qed

text \<open>
  Claim C2. For every CloneLayer with prototype \<open>p\<close> and \<open>n\<close> children, the generic
  translation is a sequence of length \<open>n\<close> whose every element is the one translation
  \<open>t\<close> of \<open>p\<close>; the invocations of \<^verbatim>\<open>_translate_node\<close> made are the one on the
  CloneLayer followed by those of a single traversal of \<open>p\<close>, whatever \<open>n\<close> is, and
  \<^verbatim>\<open>_translate_node\<close> is invoked on \<open>p\<close> exactly once.
\<close>

theorem clonelayer_replicates:
  assumes "translate_node p = (t, calls)"
  shows "\<exists>ts. translate_node (CloneLayer obj p n) = (Sequence ts, CloneLayer obj p n # calls) \<and>
           length ts = n \<and> (\<forall>i < n. ts ! i = t) \<and>
           count_list (CloneLayer obj p n # calls) p = 1"
proof -
  from assms have "translate_node (CloneLayer obj p n) =
      (Sequence (replicate n t), CloneLayer obj p n # calls)"
    by simp
  moreover have "count_list (CloneLayer obj p n # calls) p = 1"
  proof -
    have "size (CloneLayer obj p n) \<noteq> size p" by simp
    then have "CloneLayer obj p n \<noteq> p" by metis
    moreover from assms calls_count_self [of p] have "count_list calls p = 1" by simp
    ultimately show ?thesis by simp
  qed
  ultimately show ?thesis by simp
qed

theorem clonelayer_replicates_witness:
  "translate_node node_A = (Passthrough node_A, [node_A]) \<and>
   (\<exists>ts. translate_node (CloneLayer clonelayer_obj node_A 3) =
           (Sequence ts, [CloneLayer clonelayer_obj node_A 3, node_A]) \<and>
         length ts = 3 \<and> ts ! 0 = Passthrough node_A \<and> ts ! 1 = Passthrough node_A \<and>
         ts ! 2 = Passthrough node_A \<and>
         count_list [CloneLayer clonelayer_obj node_A 3, node_A] node_A = 1)"
proof -
  have a: "translate_node node_A = (Passthrough node_A, [node_A])"
    by (simp add: node_A_def)
  from clonelayer_replicates [OF a, of clonelayer_obj 3] a show ?thesis
    by auto
qed

text \<open>
  Claim C3, as amended. \<^verbatim>\<open>_translate_node\<close> never fails and never signals an
  UnsupportedVariant error: every object that is no FlowNode, CloneLayer or Layer, be
  it a standard node or an object outside the closed set of variants, reaches the
  \<^verbatim>\<open>else\<close> branch and is returned unchanged as its own translation.
\<close>

theorem translate_node_total:
  "(\<exists>t. translate_node_outcome node = Inr t) \<and>
   translate_node_outcome node \<noteq> Inl UnsupportedVariant \<and>
   (is_plain node \<longrightarrow> translate_node_outcome node = Inr (Passthrough node)) \<and>
   (\<not> in_closed_set node \<longrightarrow>
      is_plain node \<and> translate_node_outcome node = Inr (Passthrough node))"
proof (intro conjI)
  show "\<exists>t. translate_node_outcome node = Inr t"
    by (simp add: translate_node_outcome_def)
  show "translate_node_outcome node \<noteq> Inl UnsupportedVariant"
    by (simp add: translate_node_outcome_def)
  show "is_plain node \<longrightarrow> translate_node_outcome node = Inr (Passthrough node)"
    by (cases node) (simp_all add: translate_node_outcome_def)
  show "\<not> in_closed_set node \<longrightarrow>
          is_plain node \<and> translate_node_outcome node = Inr (Passthrough node)"
    by (cases node) (simp_all add: translate_node_outcome_def)
qed

theorem translate_node_total_witness:
  "is_plain node_A \<and> in_closed_set node_A \<and>
   translate_node_outcome node_A = Inr (Passthrough node_A) \<and>
   is_plain foreign_object \<and> \<not> in_closed_set foreign_object \<and>
   translate_node_outcome foreign_object = Inr (Passthrough foreign_object)"
proof -
  have a: "is_plain node_A" "in_closed_set node_A"
    by (simp_all add: node_A_def obj_A_def sample_obj_def isinstance_def)
  have b: "\<not> in_closed_set foreign_object"
    by (simp add: foreign_object_def sample_obj_def isinstance_def)
  from translate_node_total [of node_A] translate_node_total [of foreign_object] a b
  show ?thesis
    by simp
qed

text \<open>
  The claim as stated fails on a string placed where a node is expected: it is outside
  the closed set, and the translator returns it instead of signalling an error.
\<close>

theorem unsupported_variant_counterexample:
  "\<not> (\<not> in_closed_set foreign_object \<longrightarrow>
        translate_node_outcome foreign_object = Inl UnsupportedVariant)"
  by (simp add: translate_node_outcome_def foreign_object_def sample_obj_def isinstance_def)


section \<open>Properties of the HTML translator\<close>

lemma open_node_env_node:
  \<open>open_node_env dim ''node'' =
     [''<table class="node">'',
      ''<tr><td class="dim">in-dim: '' @ format_d dim @ ''</td></tr>'',
      ''<tr><td>'',
      ''<table class="nodestruct">'']\<close>
  by (simp add: open_node_env_def)

lemma close_node_env_node:
  \<open>close_node_env dim ''node'' =
     [''</table>'',
      ''</td></tr>'',
      ''<tr><td class="dim">out-dim: '' @ format_d dim,
      ''</td></tr>'',
      ''</table>'']\<close>
  by (simp add: close_node_env_def)

lemma open_node_env_flow:
  \<open>open_node_env dim ''flow'' =
     [''<table class="flow">'', ''<tr><td>'', ''<table class="nodestruct">'']\<close>
  by (simp add: open_node_env_def)

lemma close_node_env_flow:
  \<open>close_node_env dim ''flow'' = [''</table>'', ''</td></tr>'', ''</table>'']\<close>
  by (simp add: close_node_env_def)

lemma scan_no_match:
  "\<forall>entry \<in> set reg. \<not> isinstance node (fst entry) \<Longrightarrow> scan_param_translators reg node = []"
  by (induction reg) simp_all

lemma scan_first_match:
  assumes "\<forall>entry \<in> set before. \<not> isinstance node (fst entry)"
    and "isinstance node cls"
  shows "scan_param_translators (before @ (cls, render) # after) node =
           [join '' <br>\<newline>'' (render node)]"
  using assms by (induction before) simp_all

text \<open>
  Claim C7. When no entry of the registry matches a standard node, nothing fails: the
  translator writes the detail block of the node with nothing inside (its opening
  string is directly followed by its closing string), closes the node, and goes on
  with the rest of the flow.
\<close>

theorem registry_miss_empty_block:
  assumes "\<forall>entry \<in> set reg. \<not> isinstance obj (fst entry)"
  shows \<open>html_translate_standard_node reg obj =
           open_node_env (input_dim obj) ''node'' @
           [''<tr><td class="nodename">'', str obj, ''</td></tr>''] @
           [''<tr><td class="nodeparams">'', ''</td></tr>''] @
           close_node_env (output_dim obj) ''node'' \<and>
         html_rows reg (Plain obj # rest) =
           [''<tr><td>''] @ html_translate_standard_node reg obj @ [''</td></tr>''] @
           html_rows reg rest\<close>
proof -
  from assms have "\<forall>entry \<in> set (rev reg). \<not> isinstance obj (fst entry)"
    by simp
  then have "scan_param_translators (rev reg) obj = []"
    by (rule scan_no_match)
  then show ?thesis by simp
qed

theorem registry_miss_empty_block_witness:
  \<open>html_translate_standard_node [(''Rectangular2dSwitchboard'', render_R1)] obj_A =
     [''<table class="node">'',
      ''<tr><td class="dim">in-dim: 4</td></tr>'',
      ''<tr><td>'',
      ''<table class="nodestruct">'',
      ''<tr><td class="nodename">'',
      ''SFANode'',
      ''</td></tr>'',
      ''<tr><td class="nodeparams">'',
      ''</td></tr>'',
      ''</table>'',
      ''</td></tr>'',
      ''<tr><td class="dim">out-dim: 2'',
      ''</td></tr>'',
      ''</table>'']\<close>
proof -
  have "\<forall>entry \<in> set [(''Rectangular2dSwitchboard'', render_R1)]. \<not> isinstance obj_A (fst entry)"
    by (simp add: isinstance_def obj_A_def sample_obj_def)
  from registry_miss_empty_block [OF this, of "[]"] show ?thesis
    by (simp add: open_node_env_node close_node_env_node obj_A_def sample_obj_def
        format_d_def digit_char_def)
qed

text \<open>
  Claim C5. The registry is scanned from its end, and the first match wins: when an
  entry matches the node and no entry registered after it does, the detail block holds
  the lines of that entry, whatever was registered before it. Of two entries
  \<open>(TypeA, R1)\<close>, \<open>(TypeA, R2)\<close> registered in this order, a node of \<open>TypeA\<close> is
  rendered by \<open>R2\<close>.
\<close>

theorem registry_last_match_wins:
  assumes "isinstance obj cls"
    and "\<forall>entry \<in> set later. \<not> isinstance obj (fst entry)"
  shows \<open>html_translate_standard_node (earlier @ (cls, render) # later) obj =
           open_node_env (input_dim obj) ''node'' @
           [''<tr><td class="nodename">'', str obj, ''</td></tr>''] @
           [''<tr><td class="nodeparams">'',
            join '' <br>\<newline>'' (render obj),
            ''</td></tr>''] @
           close_node_env (output_dim obj) ''node''\<close>
proof -
  from assms(2) have "\<forall>entry \<in> set (rev later). \<not> isinstance obj (fst entry)"
    by simp
  from scan_first_match [OF this assms(1)]
  have "scan_param_translators (rev (earlier @ (cls, render) # later)) obj =
          [join '' <br>\<newline>'' (render obj)]"
    by simp
  then show ?thesis by simp
qed

theorem registry_last_match_wins_witness:
  \<open>html_translate_standard_node [(''SFANode'', render_R1), (''SFANode'', render_R2)] obj_A =
     [''<table class="node">'',
      ''<tr><td class="dim">in-dim: 4</td></tr>'',
      ''<tr><td>'',
      ''<table class="nodestruct">'',
      ''<tr><td class="nodename">'',
      ''SFANode'',
      ''</td></tr>'',
      ''<tr><td class="nodeparams">'',
      ''rendered by R2 <br>\<newline>dim: 4'',
      ''</td></tr>'',
      ''</table>'',
      ''</td></tr>'',
      ''<tr><td class="dim">out-dim: 2'',
      ''</td></tr>'',
      ''</table>'']\<close>
proof -
  have a: "isinstance obj_A ''SFANode''"
    by (simp add: isinstance_def obj_A_def sample_obj_def)
  have b: "\<forall>entry \<in> set []. \<not> isinstance obj_A (fst entry)"
    by simp
  from registry_last_match_wins [OF a b, of "[(''SFANode'', render_R1)]" render_R2]
  show ?thesis
    by (simp add: open_node_env_node close_node_env_node obj_A_def sample_obj_def
        format_d_def digit_char_def render_R2_def)
qed

lemma fold_newline_write:
  "fold (newline_write f) ws fs = fs(f := fs f @ map (\<lambda>s. s @ ''\<newline>'') ws)"
  by (induction ws arbitrary: fs) (simp_all add: newline_write_def)

lemma write_flow_to_file_eq:
  "write_flow_to_file self flow f fs =
     (self\<lparr>html_file := None\<rparr>,
      fs(f := fs f @ map (\<lambda>s. s @ ''\<newline>'')
                       (html_translate_flow (node_param_translators self) flow)))"
  by (simp add: write_flow_to_file_def fold_newline_write)

lemma html_translate_flow_empty:
  \<open>html_translate_flow reg [] =
     [''<table class="flow">'',
      ''<tr><td>'',
      ''<table class="nodestruct">'',
      ''</td></tr>'',
      ''</table>'',
      ''</td></tr>'',
      ''</table>'']\<close>
  by (simp add: html_translate_flow_def open_node_env_flow close_node_env_flow)

text \<open>
  Claim C6, as amended. \<^verbatim>\<open>write_flow_to_file\<close> does not look at the binding it finds:
  called on an instance that is already bound to a file, it signals no error, binds
  the instance to the file it is given, writes the whole translation of the flow to
  that file, leaves the file bound before untouched, and returns with the instance
  unbound and its registry unchanged.
\<close>

theorem write_flow_to_file_rebinds:
  assumes "html_file self = Some g" and "g \<noteq> f"
  shows "\<exists>self' fs'. write_flow_to_file_outcome self flow f fs = Inr (self', fs') \<and>
           html_file self' = None \<and>
           node_param_translators self' = node_param_translators self \<and>
           fs' f = fs f @ map (\<lambda>s. s @ ''\<newline>'')
                            (html_translate_flow (node_param_translators self) flow) \<and>
           fs' g = fs g"
  using assms
  by (simp add: write_flow_to_file_outcome_def write_flow_to_file_eq)

theorem write_flow_to_file_rebinds_witness:
  \<open>html_file bound_translator = Some 1 \<and>
   (\<exists>self' fs'. write_flow_to_file_outcome bound_translator [] 2 no_files = Inr (self', fs') \<and>
      html_file self' = None \<and>
      fs' 2 = [''<table class="flow">\<newline>'',
               ''<tr><td>\<newline>'',
               ''<table class="nodestruct">\<newline>'',
               ''</td></tr>\<newline>'',
               ''</table>\<newline>'',
               ''</td></tr>\<newline>'',
               ''</table>\<newline>''] \<and>
      fs' 1 = [])\<close>
proof -
  have a: "html_file bound_translator = Some 1"
    by (simp add: bound_translator_def)
  have b: "(1::nat) \<noteq> 2"
    by simp
  from write_flow_to_file_rebinds [OF a b, of "[]" no_files]
  obtain self' fs' where
    "write_flow_to_file_outcome bound_translator [] 2 no_files = Inr (self', fs')"
    "html_file self' = None"
    "fs' 2 = no_files 2 @ map (\<lambda>s. s @ ''\<newline>'')
                (html_translate_flow (node_param_translators bound_translator) [])"
    "fs' 1 = no_files 1"
    by blast
  with a show ?thesis
    by (simp add: html_translate_flow_empty no_files_def)
qed

text \<open>
  The claim as stated fails: an instance bound to file 1 is asked to write the empty
  flow to file 2. The call returns normally, and file 2 has received seven strings.
\<close>

theorem reentrant_use_counterexample:
  \<open>\<not> (html_file bound_translator \<noteq> None \<longrightarrow>
        write_flow_to_file_outcome bound_translator [] 2 no_files = Inl ReentrantUse) \<and>
   length (snd (write_flow_to_file bound_translator [] 2 no_files) 2) = 7\<close>
  by (simp add: write_flow_to_file_outcome_def write_flow_to_file_eq html_translate_flow_empty
      bound_translator_def no_files_def)

text \<open>
  The markers of the strings the translator writes. A text without \<^verbatim>\<open><\<close> has no
  marker and can be skipped when the markers of a longer string are counted.
\<close>

lemma occurrences_skip:
  "CHR ''<'' \<notin> set s \<Longrightarrow>
     occurrences (CHR ''<'' # pat) (s @ r) = occurrences (CHR ''<'' # pat) r"
  by (induction s) simp_all

lemma occurrences_none:
  "CHR ''<'' \<notin> set s \<Longrightarrow> occurrences (CHR ''<'' # pat) s = 0"
  using occurrences_skip [of s pat "[]"] by simp

lemma markers_skip:
  "markup_free s \<Longrightarrow> open_markers (s @ r) = open_markers r"
  "markup_free s \<Longrightarrow> close_markers (s @ r) = close_markers r"
  by (simp_all add: markup_free_def open_markers_def close_markers_def occurrences_skip)

lemma markers_none:
  "markup_free s \<Longrightarrow> open_markers s = 0"
  "markup_free s \<Longrightarrow> close_markers s = 0"
  using markers_skip [of s "[]"] by (simp_all add: open_markers_def close_markers_def)

lemma digit_char_markup_free: "digit_char n \<noteq> CHR ''<''"
proof -
  have "n mod 10 < length ''0123456789''" by simp
  then have "''0123456789'' ! (n mod 10) \<in> set ''0123456789''"
    by (rule nth_mem)
  then show ?thesis
    unfolding digit_char_def by auto
qed

lemma decimal_markup_free: "CHR ''<'' \<notin> set (decimal n)"
proof (induction n rule: decimal.induct)
  case (1 n)
  show ?case
  proof (cases "n < 10")
    case True
    then have "decimal n = [digit_char n]"
      by (subst decimal.simps) (simp del: decimal.simps)
    then show ?thesis
      using digit_char_markup_free [of n] by (simp del: decimal.simps)
  next
    case False
    then have "decimal n = decimal (n div 10) @ [digit_char n]"
      by (subst decimal.simps) (simp del: decimal.simps)
    with 1 False digit_char_markup_free [of n] show ?thesis
      by (simp del: decimal.simps)
  qed
qed

lemma format_d_markup_free: "markup_free (format_d i)"
  by (simp add: markup_free_def format_d_def decimal_markup_free del: decimal.simps)


lemma markers_in_dim:
  \<open>open_markers (''<tr><td class="dim">in-dim: '' @ format_d dim @ ''</td></tr>'') = 2\<close>
  \<open>close_markers (''<tr><td class="dim">in-dim: '' @ format_d dim @ ''</td></tr>'') = 2\<close>
  using format_d_markup_free [of dim]
  by (simp_all add: open_markers_def close_markers_def markup_free_def occurrences_skip)

lemma markers_out_dim:
  \<open>open_markers (''<tr><td class="dim">out-dim: '' @ format_d dim) = 2\<close>
  \<open>close_markers (''<tr><td class="dim">out-dim: '' @ format_d dim) = 0\<close>
  using format_d_markup_free [of dim]
  by (simp_all add: open_markers_def close_markers_def markup_free_def occurrences_none)

lemmas markers_dim = markers_in_dim [unfolded append.simps] markers_out_dim [unfolded append.simps]

lemma markers_name_br:
  assumes "markup_free s"
  shows \<open>open_markers (s @ ''<br><br>'') = 0\<close> \<open>close_markers (s @ ''<br><br>'') = 0\<close>
  using assms
  by (simp_all add: open_markers_def close_markers_def markup_free_def occurrences_skip)

lemma markers_repetitions:
  \<open>open_markers (format_d n @ '' repetitions'') = 0\<close>
  \<open>close_markers (format_d n @ '' repetitions'') = 0\<close>
  using format_d_markup_free [of n]
  by (simp_all add: open_markers_def close_markers_def markup_free_def occurrences_skip)

lemma occurrences_join:
  "\<forall>line \<in> set lines. CHR ''<'' \<notin> set line \<Longrightarrow>
     occurrences (CHR ''<'' # CHR ''t'' # pat) (join '' <br>\<newline>'' lines) = 0 \<and>
     occurrences (CHR ''<'' # CHR ''/'' # pat) (join '' <br>\<newline>'' lines) = 0"
  by (induction "'' <br>\<newline>''" lines rule: join.induct)
     (simp_all add: occurrences_skip occurrences_none)

lemma markers_join:
  assumes "\<forall>line \<in> set lines. markup_free line"
  shows "open_markers (join '' <br>\<newline>'' lines) = 0"
    and "close_markers (join '' <br>\<newline>'' lines) = 0"
  using assms occurrences_join [of lines]
  by (simp_all add: open_markers_def close_markers_def markup_free_def)


lemma literal_markers:
  \<open>open_markers ''<table class="flow">'' = 1\<close> \<open>close_markers ''<table class="flow">'' = 0\<close>
  \<open>open_markers ''<table class="flownode">'' = 1\<close> \<open>close_markers ''<table class="flownode">'' = 0\<close>
  \<open>open_markers ''<table class="layer">'' = 1\<close> \<open>close_markers ''<table class="layer">'' = 0\<close>
  \<open>open_markers ''<table class="node">'' = 1\<close> \<open>close_markers ''<table class="node">'' = 0\<close>
  \<open>open_markers ''<table class="nodestruct">'' = 1\<close>
  \<open>close_markers ''<table class="nodestruct">'' = 0\<close>
  \<open>open_markers ''<tr><td>'' = 2\<close> \<open>close_markers ''<tr><td>'' = 0\<close>
  \<open>open_markers ''<tr><td class="nodename">'' = 2\<close>
  \<open>close_markers ''<tr><td class="nodename">'' = 0\<close>
  \<open>open_markers ''<tr><td class="nodeparams">'' = 2\<close>
  \<open>close_markers ''<tr><td class="nodeparams">'' = 0\<close>
  \<open>open_markers ''<tr>'' = 1\<close> \<open>close_markers ''<tr>'' = 0\<close>
  \<open>open_markers ''<td>'' = 1\<close> \<open>close_markers ''<td>'' = 0\<close>
  \<open>open_markers ''</table>'' = 0\<close> \<open>close_markers ''</table>'' = 1\<close>
  \<open>open_markers ''</td></tr>'' = 0\<close> \<open>close_markers ''</td></tr>'' = 2\<close>
  \<open>open_markers ''</tr>'' = 0\<close> \<open>close_markers ''</tr>'' = 1\<close>
  \<open>open_markers ''</td>'' = 0\<close> \<open>close_markers ''</td>'' = 1\<close>
  by (simp_all add: open_markers_def close_markers_def)

lemma running_append:
  "running d (a @ b) = (case running d a of None \<Rightarrow> None | Some e \<Rightarrow> running e b)"
  by (induction a arbitrary: d) simp_all

lemma opens_append: "opens (a @ b) = opens a + opens b"
  by (simp add: opens_def)

lemma closes_append: "closes (a @ b) = closes a + closes b"
  by (simp add: closes_def)

lemma running_Some:
  "running d ws = Some e \<Longrightarrow>
     e + closes ws = d + opens ws \<and> (\<forall>k. closes (take k ws) \<le> d + opens (take k ws))"
proof (induction ws arbitrary: d)
  case Nil
  then show ?case by (simp add: opens_def closes_def)
next
  case (Cons w ws)
  from Cons.prems have le: "close_markers w \<le> d + open_markers w"
    and run: "running (d + open_markers w - close_markers w) ws = Some e"
    by (simp_all split: if_splits)
  from Cons.IH [OF run]
  have tot: "e + closes ws = d + open_markers w - close_markers w + opens ws"
    and pre: "\<And>k. closes (take k ws) \<le> d + open_markers w - close_markers w + opens (take k ws)"
    by simp_all
  have "closes (take k (w # ws)) \<le> d + opens (take k (w # ws))" for k
  proof (cases k)
    case 0
    then show ?thesis by (simp add: closes_def)
  next
    case (Suc j)
    with pre [of j] le show ?thesis
      by (simp add: opens_def closes_def)
  qed
  moreover from tot le have "e + closes (w # ws) = d + opens (w # ws)"
    by (simp add: opens_def closes_def)
  ultimately show ?case by blast
qed

lemma running_None:
  "running d ws = None \<Longrightarrow> \<exists>k \<le> length ws. d + opens (take k ws) < closes (take k ws)"
proof (induction ws arbitrary: d)
  case Nil
  then show ?case by simp
next
  case (Cons w ws)
  show ?case
  proof (cases "close_markers w \<le> d + open_markers w")
    case True
    with Cons.prems have "running (d + open_markers w - close_markers w) ws = None"
      by simp
    from Cons.IH [OF this] obtain k where k: "k \<le> length ws"
      "d + open_markers w - close_markers w + opens (take k ws) < closes (take k ws)"
      by blast
    with True have "d + opens (take (Suc k) (w # ws)) < closes (take (Suc k) (w # ws))"
      by (simp add: opens_def closes_def)
    with k(1) show ?thesis
      by (intro exI [of _ "Suc k"]) simp
  next
    case False
    then have "d + opens (take 1 (w # ws)) < closes (take 1 (w # ws))"
      by (simp add: opens_def closes_def)
    then show ?thesis
      by (intro exI [of _ 1]) simp
  qed
qed

lemma running_open_node_env:
  "running d (open_node_env dim ''node'') = Some (d + 4)"
  "running d (open_node_env dim ''layer'') = Some (d + 4)"
  "running d (open_node_env dim ''flownode'') = Some (d + 4)"
  "running d (open_node_env dim ''flow'') = Some (d + 4)"
  by (simp_all add: open_node_env_def literal_markers markers_dim)

lemma running_close_node_env:
  "4 \<le> d \<Longrightarrow> running d (close_node_env dim ''node'') = Some (d - 4)"
  "4 \<le> d \<Longrightarrow> running d (close_node_env dim ''flownode'') = Some (d - 4)"
  by (auto simp add: close_node_env_def literal_markers markers_dim)

lemma running_scan:
  "\<forall>entry \<in> set reg. \<forall>line \<in> set (snd entry obj). markup_free line \<Longrightarrow>
     running d (scan_param_translators reg obj) = Some d"
  by (induction reg) (simp_all add: markers_join)

lemma running_rows:
  "\<forall>n \<in> set ns. \<forall>d. running d (html_translate_node reg n) = Some d \<Longrightarrow>
     running d (html_rows reg ns) = Some d"
  by (induction ns) (simp_all add: running_append literal_markers)

lemma running_columns:
  "\<forall>n \<in> set ns. \<forall>d. running d (html_translate_node reg n) = Some d \<Longrightarrow>
     running d (html_columns reg ns) = Some d"
  by (induction ns) (simp_all add: running_append literal_markers)

lemma running_node:
  "plain_texts reg n \<Longrightarrow> running d (html_translate_node reg n) = Some d"
proof (induction n arbitrary: d)
  case (FlowNode obj flow)
  then have "running e (html_rows reg flow) = Some e" for e
    by (intro running_rows) simp
  then show ?case
    by (simp add: running_append running_open_node_env running_close_node_env)
next
  case (CloneLayer obj p k)
  then have "running e (html_translate_node reg p) = Some e" for e
    by simp
  with CloneLayer.prems show ?case
    by (simp add: running_append running_open_node_env running_close_node_env
        literal_markers markers_name_br markers_repetitions)
next
  case (Layer obj nodes)
  then have "running e (html_columns reg nodes) = Some e" for e
    by (intro running_columns) simp
  then show ?case
    by (simp add: running_append running_open_node_env running_close_node_env literal_markers)
next
  case (Plain obj)
  then have "running e (scan_param_translators (rev reg) obj) = Some e" for e
    by (intro running_scan) simp
  with Plain.prems show ?case
    by (simp add: running_append running_open_node_env running_close_node_env
        literal_markers markers_none)
qed

lemma node_markup_balanced:
  assumes "plain_texts reg n"
  shows "opens (html_translate_node reg n) = closes (html_translate_node reg n)"
    and "closes (take k (html_translate_node reg n)) \<le> opens (take k (html_translate_node reg n))"
  using running_Some [OF running_node [OF assms, of 0]] by simp_all

lemma rows_markup_balanced:
  assumes "\<forall>n \<in> set flow. plain_texts reg n"
  shows "running d (html_rows reg flow) = Some d"
    and "opens (html_rows reg flow) = closes (html_rows reg flow)"
proof -
  from assms show "running d (html_rows reg flow) = Some d" for d
    by (intro running_rows) (simp add: running_node)
  from running_Some [OF this [of 0]]
  show "opens (html_rows reg flow) = closes (html_rows reg flow)"
    by simp
qed

text \<open>
  Every method of the translator but \<^verbatim>\<open>_translate_flow\<close> writes balanced markup, as
  \<open>node_markup_balanced\<close> shows. The translation of a flow, whatever the flow is,
  closes two markers more than it opens, and some prefix of its writes has closed more
  markers than it has opened.
\<close>

lemma flow_markup_surplus:
  assumes "\<forall>n \<in> set flow. plain_texts reg n"
  shows "closes (html_translate_flow reg flow) = opens (html_translate_flow reg flow) + 2"
    and "\<exists>k \<le> length (html_translate_flow reg flow).
           opens (take k (html_translate_flow reg flow)) <
           closes (take k (html_translate_flow reg flow))"
proof -
  from rows_markup_balanced(2) [OF assms]
  show "closes (html_translate_flow reg flow) = opens (html_translate_flow reg flow) + 2"
    by (simp add: html_translate_flow_def open_node_env_flow close_node_env_flow
        opens_append closes_append)
       (simp add: opens_def closes_def literal_markers)
  have "running 0 (html_translate_flow reg flow) = None"
    by (simp add: html_translate_flow_def running_append running_open_node_env
        rows_markup_balanced(1) [OF assms] close_node_env_flow literal_markers)
  from running_None [OF this]
  show "\<exists>k \<le> length (html_translate_flow reg flow).
          opens (take k (html_translate_flow reg flow)) <
          closes (take k (html_translate_flow reg flow))"
    by simp
qed

text \<open>
  Claim C1. The claim asks that the open markers and the close markers written for a
  flow are equally many, and that no prefix of the writes has more close markers than
  open markers. \<^verbatim>\<open>_translate_flow\<close> writes one \<^verbatim>\<open></td></tr>\<close> after its loop that
  nothing opens: for the empty flow the file receives four open markers and six close
  markers, and after the sixth write it has received five close markers against four
  open markers.
\<close>

theorem flow_markup_unbalanced:
  \<open>snd (write_flow_to_file self [] f no_files) f =
     [''<table class="flow">\<newline>'',
      ''<tr><td>\<newline>'',
      ''<table class="nodestruct">\<newline>'',
      ''</td></tr>\<newline>'',
      ''</table>\<newline>'',
      ''</td></tr>\<newline>'',
      ''</table>\<newline>''] \<and>
   opens (snd (write_flow_to_file self [] f no_files) f) = 4 \<and>
   closes (snd (write_flow_to_file self [] f no_files) f) = 6 \<and>
   opens (take 6 (snd (write_flow_to_file self [] f no_files) f)) = 4 \<and>
   closes (take 6 (snd (write_flow_to_file self [] f no_files) f)) = 5\<close>
  by (simp add: write_flow_to_file_eq html_translate_flow_empty no_files_def opens_def
      closes_def open_markers_def close_markers_def)


section \<open>Properties of SenderBiNode and of message keys\<close>

text \<open>
  Claim C10. The message returned by \<^verbatim>\<open>SenderBiNode._execute\<close> always holds the
  original \<open>x\<close>, and nothing else: under the addressed key when the recipient id is a
  string that is not empty, under the bare key \<^verbatim>\<open>msg_x\<close> when it is \<open>None\<close> or the
  empty string. The returned data is \<open>None\<close> when \<^verbatim>\<open>no_x\<close> is truthy and \<open>x\<close>
  otherwise; the message is the same in both cases.
\<close>

theorem sender_execute_message:
  "(rid \<noteq> [] \<longrightarrow>
      snd (SenderBiNode_execute sep (Some rid) x no_x) = [rid @ sep @ ''msg_x'' \<mapsto> x]) \<and>
   snd (SenderBiNode_execute sep (Some []) x no_x) = [''msg_x'' \<mapsto> x] \<and>
   snd (SenderBiNode_execute sep None x no_x) = [''msg_x'' \<mapsto> x] \<and>
   (truthy no_x \<longrightarrow> fst (SenderBiNode_execute sep recipient_id x no_x) = None) \<and>
   (\<not> truthy no_x \<longrightarrow> fst (SenderBiNode_execute sep recipient_id x no_x) = Some x) \<and>
   snd (SenderBiNode_execute sep recipient_id x no_x) =
     snd (SenderBiNode_execute sep recipient_id x PyNone)"
  by (simp add: SenderBiNode_execute_def Let_def)

theorem sender_execute_message_witness:
  "SenderBiNode_execute ''->'' (Some ''node1'') (42::int) (PyBool True) =
     (None, [''node1->msg_x'' \<mapsto> 42]) \<and>
   SenderBiNode_execute ''->'' (Some '''') (42::int) (PyBool True) =
     (None, [''msg_x'' \<mapsto> 42]) \<and>
   SenderBiNode_execute ''->'' None (42::int) PyNone = (Some 42, [''msg_x'' \<mapsto> 42])"
proof -
  have a: "''node1'' \<noteq> []" and b: "truthy (PyBool True)" and c: "\<not> truthy PyNone"
    by simp_all
  from sender_execute_message [of "''node1''" "''->''" "42::int" "PyBool True" "Some ''node1''"] a b
  have 1: "SenderBiNode_execute ''->'' (Some ''node1'') (42::int) (PyBool True) =
             (None, [''node1->msg_x'' \<mapsto> 42])"
    by (simp add: prod_eq_iff)
  from sender_execute_message [of "''node1''" "''->''" "42::int" "PyBool True" "Some ''''"] b
  have 2: "SenderBiNode_execute ''->'' (Some '''') (42::int) (PyBool True) =
             (None, [''msg_x'' \<mapsto> 42])"
    by (simp add: prod_eq_iff)
  from sender_execute_message [of "''node1''" "''->''" "42::int" PyNone None] c
  have 3: "SenderBiNode_execute ''->'' None (42::int) PyNone = (Some 42, [''msg_x'' \<mapsto> 42])"
    by (simp add: prod_eq_iff)
  from 1 2 3 show ?thesis by simp
qed

lemma contains_prefix: "prefix pat s \<Longrightarrow> contains pat s"
  by (cases s) simp_all

lemma contains_sublist: "contains pat s = sublist pat s"
  by (induction s) (auto simp: sublist_Cons_right)

lemma overlap_free_iff:
  "overlap_free sep \<longleftrightarrow>
     (\<forall>k. 1 \<le> k \<and> k < length sep \<longrightarrow> take k sep \<noteq> drop (length sep - k) sep)"
  by (auto simp: overlap_free_def list_all_iff)

lemma prefix_append_cases:
  assumes "prefix xs (ys @ zs)"
  obtains "prefix xs ys" | us where "xs = ys @ us" "prefix us zs"
  using assms unfolding prefix_append by blast

text \<open>
  No occurrence of the separator starts inside the recipient id: it would either lie
  within the recipient id or run over into the separator that follows, and then the
  separator would overlap itself.
\<close>

lemma no_straddling_occurrence:
  assumes free: "overlap_free sep"
    and notin: "\<not> contains sep rid"
    and ne: "rid \<noteq> []"
  shows "\<not> prefix sep (rid @ sep @ payload)"
proof
  assume "prefix sep (rid @ sep @ payload)"
  then show False
  proof (cases rule: prefix_append_cases)
    case 1
    with notin show False by (simp add: contains_prefix)
  next
    case (2 us)
    from 2(2) show False
    proof (cases rule: prefix_append_cases)
      case 1
      then obtain ws where ws: "sep = us @ ws"
        by (auto simp: prefix_def)
      then have us: "take (length us) sep = us"
        by simp
      from 2(1) have len: "length sep = length rid + length us" by simp
      from 2(1) have dr: "drop (length rid) sep = us" by simp
      have "us \<noteq> []"
      proof
        assume "us = []"
        with 2(1) have "sep = rid" by simp
        with notin show False by (simp add: contains_prefix)
      qed
      with len ne have k: "1 \<le> length us" "length us < length sep"
        by (simp_all add: Suc_le_eq)
      from len have "length sep - length us = length rid" by simp
      with us dr have "take (length us) sep = drop (length sep - length us) sep"
        by simp
      with free k show False
        unfolding overlap_free_iff by blast
    next
      case (2 vs)
      with \<open>sep = rid @ us\<close> have "length sep = length (rid @ sep @ vs)"
        by simp
      with ne show False by simp
    qed
  qed
qed

lemma split_first_key:
  assumes "overlap_free sep" and "\<not> contains sep rid"
  shows "split_first sep (rid @ sep @ payload) = Some (rid, payload)"
  using assms(2)
proof (induction rid)
  case Nil
  then have "sep \<noteq> []" by auto
  then obtain c cs where "sep = c # cs" by (cases sep) auto
  then show ?case by simp
next
  case (Cons c rid)
  then have ne: "sep \<noteq> []" by auto
  from Cons.prems have "\<not> contains sep rid" by simp
  then have ih: "split_first sep (rid @ sep @ payload) = Some (rid, payload)"
    by (rule Cons.IH)
  from no_straddling_occurrence [OF assms(1) Cons.prems, of payload]
  have "\<not> prefix sep (c # rid @ sep @ payload)" by simp
  with ne ih show ?case by simp
qed

text \<open>
  The condition on the separator cannot be dropped: with the self-overlapping
  separator \<^verbatim>\<open>::\<close>, the recipient id \<^verbatim>\<open>a:\<close> does not contain the separator, and yet
  the first occurrence of the separator in the key starts inside the recipient id.
\<close>

lemma overlapping_separator_ambiguous:
  "\<not> contains ''::'' ''a:'' \<and>
   split_first ''::'' (''a:'' @ ''::'' @ ''msg_x'') = Some (''a'', '':msg_x'')"
  by simp

text \<open>
  Claim C9. For a separator that does not overlap itself and a recipient id that does
  not contain the separator, splitting the key \<open>recipient_id + SEPARATOR +
  payload_name\<close> on the first occurrence of the separator gives back the recipient id
  and the payload name; so it does for the one key of the message that
  \<^verbatim>\<open>SenderBiNode._execute\<close> builds, whose payload name is \<^verbatim>\<open>msg_x\<close>.
\<close>

theorem message_key_round_trip:
  assumes "overlap_free sep" and "\<not> contains sep rid"
  shows "split_first sep (rid @ sep @ payload) = Some (rid, payload) \<and>
         (rid \<noteq> [] \<longrightarrow>
            (\<exists>key. dom (snd (SenderBiNode_execute sep (Some rid) x no_x)) = {key} \<and>
                   split_first sep key = Some (rid, ''msg_x'')))"
proof
  from assms show "split_first sep (rid @ sep @ payload) = Some (rid, payload)"
    by (rule split_first_key)
  show "rid \<noteq> [] \<longrightarrow>
          (\<exists>key. dom (snd (SenderBiNode_execute sep (Some rid) x no_x)) = {key} \<and>
                 split_first sep key = Some (rid, ''msg_x''))"
  proof
    assume "rid \<noteq> []"
    then have "dom (snd (SenderBiNode_execute sep (Some rid) x no_x)) = {rid @ sep @ ''msg_x''}"
      by (simp add: SenderBiNode_execute_def Let_def)
    moreover from assms have "split_first sep (rid @ sep @ ''msg_x'') = Some (rid, ''msg_x'')"
      by (rule split_first_key)
    ultimately show "\<exists>key. dom (snd (SenderBiNode_execute sep (Some rid) x no_x)) = {key} \<and>
                           split_first sep key = Some (rid, ''msg_x'')"
      by blast
  qed
qed

theorem message_key_round_trip_witness:
  "overlap_free ''->'' \<and> \<not> contains ''->'' ''node-1'' \<and>
   split_first ''->'' ''node-1->msg_x'' = Some (''node-1'', ''msg_x'') \<and>
   (\<exists>key. dom (snd (SenderBiNode_execute ''->'' (Some ''node-1'') (42::int) PyNone)) = {key} \<and>
          split_first ''->'' key = Some (''node-1'', ''msg_x''))"
proof -
  have a: "overlap_free ''->''"
    by (simp add: overlap_free_def)
  have b: "\<not> contains ''->'' ''node-1''"
    by simp
  from message_key_round_trip [OF a b, of "''msg_x''" "42::int" PyNone] a b show ?thesis
    by simp
qed

end
